theory Spec2Isabelle
  imports Main "HOL-Library.AList"
begin

section \<open>The load balancer data source: data model\<close>

text \<open>
  Embedding of \<^verbatim>\<open>aws/data_source_aws_lb.go\<close>: the schema registered by
  \<^verbatim>\<open>dataSourceAwsLb\<close> and the read operation \<^verbatim>\<open>dataSourceAwsLbRead\<close>.
  Go pointers to strings are \<open>string option\<close> (\<open>None\<close> is nil), Go maps with string keys
  are association lists, the resource data \<^verbatim>\<open>d\<close> is a record that is passed in and
  returned updated, and every remote call takes the state of the outside world \<open>'w\<close> and
  returns it updated, so that two calls with the same arguments may answer differently.
\<close>

subsection \<open>Values, schema and resource data\<close>

datatype ValueType = TypeBool | TypeInt | TypeString | TypeList | TypeMap | TypeSet

datatype tfval =
    VNil
  | VString string
  | VBool bool
  | VInt int
  | VList "tfval list"
  | VMap "(string \<times> tfval) list"

text \<open>Modelled from the spec: \<^verbatim>\<open>tagsSchema()\<close>, which is not among the sources. The spec
  lists the field \<^verbatim>\<open>tags\<close> of the output record as a map.\<close>

definition tagsSchema :: ValueType where
  "tagsSchema = TypeMap"

text \<open>The \<^verbatim>\<open>Schema\<close> map of \<^verbatim>\<open>dataSourceAwsLb\<close> (lines 17 to 154): every key with its
  \<^verbatim>\<open>Type\<close>, in the order of the source.\<close>

definition dataSourceAwsLb_Schema :: "(string \<times> ValueType) list" where
  "dataSourceAwsLb_Schema =
    [(''arn'', TypeString),
     (''arn_suffix'', TypeString),
     (''name'', TypeString),
     (''internal'', TypeBool),
     (''load_balancer_type'', TypeString),
     (''security_groups'', TypeSet),
     (''subnets'', TypeSet),
     (''subnet_mapping'', TypeSet),
     (''access_logs'', TypeList),
     (''enable_deletion_protection'', TypeBool),
     (''enable_http2'', TypeBool),
     (''idle_timeout'', TypeInt),
     (''drop_invalid_header_fields'', TypeBool),
     (''vpc_id'', TypeString),
     (''zone_id'', TypeString),
     (''dns_name'', TypeString),
     (''ip_address_type'', TypeString),
     (''customer_owned_ipv4_pool'', TypeString),
     (''tags'', tagsSchema)]"

record ResourceData =
  ID :: string
  vals :: "string \<rightharpoonup> tfval"

datatype set_error =
    InvalidAddress string
  | WrongType string ValueType

text \<open>The kind of value a schema type accepts. A nil value clears the field and is accepted
  everywhere; a slice is accepted by a list and by a set.\<close>

fun conforms :: "ValueType \<Rightarrow> tfval \<Rightarrow> bool" where
  "conforms ty VNil = True"
| "conforms TypeBool (VBool b) = True"
| "conforms TypeInt (VInt i) = True"
| "conforms TypeString (VString s) = True"
| "conforms TypeList (VList vs) = True"
| "conforms TypeSet (VList vs) = True"
| "conforms TypeMap (VMap m) = True"
| "conforms ty v = False"

text \<open>\<^verbatim>\<open>d.Set(key, value)\<close> of the plugin SDK: the key is looked up in the schema of the data
  source; an address that the schema does not declare is an error and nothing is written,
  and so is a value of the wrong kind. The result is the error (if any) and the resource
  data after the call.\<close>

definition Set :: "ResourceData \<Rightarrow> string \<Rightarrow> tfval \<Rightarrow> set_error option \<times> ResourceData" where
  "Set d key v =
    (case map_of dataSourceAwsLb_Schema key of
       None \<Rightarrow> (Some (InvalidAddress key), d)
     | Some ty \<Rightarrow>
         if conforms ty v then (None, d\<lparr>vals := (vals d)(key \<mapsto> v)\<rparr>)
         else (Some (WrongType key ty), d))"

definition SetId :: "ResourceData \<Rightarrow> string \<Rightarrow> ResourceData" where
  "SetId d v = d\<lparr>ID := v\<rparr>"

text \<open>\<^verbatim>\<open>d.GetOk(key)\<close> followed by \<^verbatim>\<open>v.(string)\<close>, as both call sites read a string field:
  the flag is true when the field is set to something other than the empty string.\<close>

definition GetOk :: "ResourceData \<Rightarrow> string \<Rightarrow> string \<times> bool" where
  "GetOk d key =
    (case vals d key of
       Some (VString s) \<Rightarrow> (s, s \<noteq> '''')
     | _ \<Rightarrow> ('''', False))"

text \<open>\<^verbatim>\<open>d.Get(key).(map[string]interface{})\<close>: the configured map, empty when unset.\<close>

definition GetMap :: "ResourceData \<Rightarrow> string \<Rightarrow> (string \<times> tfval) list" where
  "GetMap d key = (case vals d key of Some (VMap m) \<Rightarrow> m | _ \<Rightarrow> [])"

subsection \<open>The load balancer API\<close>

type_synonym KeyValueTags = "(string \<times> string) list"

record 'az LoadBalancer =
  LoadBalancerArn :: "string option"
  LoadBalancerName :: "string option"
  Scheme :: "string option"
  SecurityGroups :: "string option list"
  VpcId :: "string option"
  CanonicalHostedZoneId :: "string option"
  DNSName :: "string option"
  IpAddressType :: "string option"
  Type :: "string option"
  CustomerOwnedIpv4Pool :: "string option"
  AvailabilityZones :: "'az"

record DescribeLoadBalancersInput =
  LoadBalancerArns :: "string list"
  Names :: "string list"

record 'az DescribeLoadBalancersOutput =
  LoadBalancers :: "'az LoadBalancer list"

record LoadBalancerAttribute =
  Key :: "string option"
  Value :: "string option"

text \<open>An error of the API: one that carries an error code, or any other error.\<close>

datatype awserr =
    AwsError (Code: string) (Message: string)
  | OtherError (Message: string)

definition ErrCodeLoadBalancerNotFoundException :: string where
  "ErrCodeLoadBalancerNotFoundException = ''LoadBalancerNotFound''"

text \<open>\<^verbatim>\<open>tfawserr.ErrCodeEquals(err, code)\<close> on an error that is not nil.\<close>

fun ErrCodeEquals :: "awserr \<Rightarrow> string \<Rightarrow> bool" where
  "ErrCodeEquals (AwsError c m) code = (c = code)"
| "ErrCodeEquals (OtherError m) code = False"

text \<open>
  The client \<^verbatim>\<open>conn\<close>. \<open>ListPages\<close> is what the service answers to a paged list request:
  the pages it delivers, each with the \<^verbatim>\<open>lastPage\<close> flag the pager passes to the callback
  (a page may be nil), and the error of the request after the last delivered page, if that
  request fails. \<open>ListTags\<close> answers \<^verbatim>\<open>keyvaluetags.Elbv2ListTags(conn, arn)\<close> and
  \<open>DescribeLoadBalancerAttributes\<close> the attribute request for an identifier.
\<close>

record ('w, 'az) ELBV2 =
  ListPages :: "DescribeLoadBalancersInput \<Rightarrow> 'w \<Rightarrow>
    (('az DescribeLoadBalancersOutput option \<times> bool) list \<times> awserr option) \<times> 'w"
  ListTags :: "string \<Rightarrow> 'w \<Rightarrow> (awserr + KeyValueTags) \<times> 'w"
  DescribeLoadBalancerAttributes :: "string \<Rightarrow> 'w \<Rightarrow> (awserr + LoadBalancerAttribute list) \<times> 'w"

record ('w, 'az, 'cfg) AWSClient =
  elbv2conn :: "('w, 'az) ELBV2"
  IgnoreTagsConfig :: "'cfg"

text \<open>
  Functions of the provider that \<^verbatim>\<open>dataSourceAwsLbRead\<close> calls and that live in other
  files: the tag normalisers of \<^verbatim>\<open>keyvaluetags\<close> and the flatteners. They are parameters
  of the model.
\<close>

record ('az, 'cfg) helpers =
  New :: "(string \<times> tfval) list \<Rightarrow> KeyValueTags"
  IgnoreAws :: "KeyValueTags \<Rightarrow> KeyValueTags"
  IgnoreConfig :: "'cfg \<Rightarrow> KeyValueTags \<Rightarrow> KeyValueTags"
  lbSuffixFromARN :: "string option \<Rightarrow> string"
  flattenStringList :: "string option list \<Rightarrow> tfval"
  flattenSubnetsFromAvailabilityZones :: "'az \<Rightarrow> tfval"
  flattenSubnetMappingsFromAvailabilityZones :: "'az \<Rightarrow> tfval"

definition StringValue :: "string option \<Rightarrow> string" where
  "StringValue p = (case p of None \<Rightarrow> '''' | Some s \<Rightarrow> s)"

text \<open>A string pointer handed to \<^verbatim>\<open>d.Set\<close>: nil is the nil value, otherwise the string.\<close>

definition PtrValue :: "string option \<Rightarrow> tfval" where
  "PtrValue p = (case p of None \<Rightarrow> VNil | Some s \<Rightarrow> VString s)"

text \<open>Modelled from the spec: \<^verbatim>\<open>KeyValueTags.ContainsAll\<close> of the package
  \<^verbatim>\<open>keyvaluetags\<close>, which is not among the sources. An entity matches only if every key
  of the predicate is present with an exactly equal value.\<close>

definition ContainsAll :: "KeyValueTags \<Rightarrow> KeyValueTags \<Rightarrow> bool" where
  "ContainsAll tags target = list_all (\<lambda>(key, v). map_of tags key = Some v) target"

text \<open>Modelled from the spec: \<^verbatim>\<open>KeyValueTags.Map()\<close> of the same package. A tag set is a
  mapping of string keys to string values; this is that map as a value for \<^verbatim>\<open>d.Set\<close>.\<close>

definition TagsMap :: "KeyValueTags \<Rightarrow> tfval" where
  "TagsMap tags = VMap (map (\<lambda>(key, v). (key, VString v)) tags)"

subsection \<open>Errors of the read operation\<close>

datatype atoi_cause = ErrSyntax | ErrRange

datatype NumError = NumError string atoi_cause

datatype read_error =
    ErrRetrievingLB awserr
  | ErrListingTags string awserr
  | ErrSearchResults nat
  | ErrSettingSubnets set_error
  | ErrSettingSubnetMapping set_error
  | ErrSettingTags set_error
  | ErrRetrievingLBAttributes awserr
  | ErrParsingALBTimeout NumError
  | ErrSettingAccessLogs set_error

section \<open>The read operation\<close>

subsection \<open>Building the list request (lines 164 to 170)\<close>

definition buildInput :: "ResourceData \<Rightarrow> DescribeLoadBalancersInput" where
  "buildInput d =
    (let input = \<lparr>LoadBalancerArns = [], Names = []\<rparr> in
     case GetOk d ''arn'' of
       (v, True) \<Rightarrow> input\<lparr>LoadBalancerArns := [v]\<rparr>
     | (v, False) \<Rightarrow>
         (case GetOk d ''name'' of
            (v, True) \<Rightarrow> input\<lparr>Names := [v]\<rparr>
          | (v, False) \<Rightarrow> input))"

subsection \<open>Paging (lines 172 to 186)\<close>

text \<open>The callback handed to \<^verbatim>\<open>DescribeLoadBalancersPages\<close>. It closes over \<^verbatim>\<open>results\<close>,
  which is passed in and returned here; the second component is the callback's return
  value, true to go on to the next page.\<close>

definition pageFn :: "'az LoadBalancer list \<Rightarrow> 'az DescribeLoadBalancersOutput option \<Rightarrow> bool
    \<Rightarrow> 'az LoadBalancer list \<times> bool" where
  "pageFn results page lastPage =
    (case page of
       None \<Rightarrow> (results, \<not> lastPage)
     | Some p \<Rightarrow> (results @ LoadBalancers p, \<not> lastPage))"

text \<open>The pager of the SDK: it calls the callback on each delivered page, in order, and
  stops when the callback returns false or when no page is left. The flag returned says
  whether the pages ran out, in which case the pending request error (if any) is met.\<close>

fun eachPage :: "('s \<Rightarrow> 'p \<Rightarrow> bool \<Rightarrow> 's \<times> bool) \<Rightarrow> ('p \<times> bool) list \<Rightarrow> 's \<Rightarrow> 's \<times> bool" where
  "eachPage fn [] s = (s, True)"
| "eachPage fn ((page, lastPage) # rest) s =
    (case fn s page lastPage of
       (s', True) \<Rightarrow> eachPage fn rest s'
     | (s', False) \<Rightarrow> (s', False))"

definition DescribeLoadBalancersPages ::
  "('w, 'az) ELBV2 \<Rightarrow> DescribeLoadBalancersInput
    \<Rightarrow> ('s \<Rightarrow> 'az DescribeLoadBalancersOutput option \<Rightarrow> bool \<Rightarrow> 's \<times> bool) \<Rightarrow> 's \<Rightarrow> 'w
    \<Rightarrow> 's \<times> awserr option \<times> 'w" where
  "DescribeLoadBalancersPages conn input fn s w =
    (case ListPages conn input w of
       ((pages, err), w') \<Rightarrow>
         (case eachPage fn pages s of
            (s', True) \<Rightarrow> (s', err, w')
          | (s', False) \<Rightarrow> (s', None, w')))"

subsection \<open>Filtering by tags (lines 188 to 211)\<close>

text \<open>The loop over \<^verbatim>\<open>results\<close>; \<open>loadBalancers\<close> is the slice built so far.\<close>

fun filterLoop :: "('w, 'az) ELBV2 \<Rightarrow> KeyValueTags \<Rightarrow> 'az LoadBalancer list
    \<Rightarrow> 'az LoadBalancer list \<Rightarrow> 'w \<Rightarrow> (read_error + 'az LoadBalancer list) \<times> 'w" where
  "filterLoop conn tagsToMatch [] loadBalancers w = (Inr loadBalancers, w)"
| "filterLoop conn tagsToMatch (loadBalancer # rest) loadBalancers w =
    (let arn = StringValue (LoadBalancerArn loadBalancer) in
     case ListTags conn arn w of
       (Inl err, w') \<Rightarrow>
         if ErrCodeEquals err ErrCodeLoadBalancerNotFoundException
         then filterLoop conn tagsToMatch rest loadBalancers w'
         else (Inl (ErrListingTags arn err), w')
     | (Inr tags, w') \<Rightarrow>
         if \<not> ContainsAll tags tagsToMatch
         then filterLoop conn tagsToMatch rest loadBalancers w'
         else filterLoop conn tagsToMatch rest (loadBalancers @ [loadBalancer]) w')"

text \<open>Lines 188 to 211: the loop runs only when there are tags to match.\<close>

definition filterByTags :: "('w, 'az) ELBV2 \<Rightarrow> KeyValueTags \<Rightarrow> 'az LoadBalancer list \<Rightarrow> 'w
    \<Rightarrow> (read_error + 'az LoadBalancer list) \<times> 'w" where
  "filterByTags conn tagsToMatch results w =
    (if length tagsToMatch > 0 then filterLoop conn tagsToMatch results [] w
     else (Inr results, w))"

definition tagsToMatch_of :: "('az, 'cfg) helpers \<Rightarrow> ('w, 'az, 'cfg) AWSClient \<Rightarrow> ResourceData
    \<Rightarrow> KeyValueTags" where
  "tagsToMatch_of pkg meta d =
    IgnoreConfig pkg (IgnoreTagsConfig meta) (IgnoreAws pkg (New pkg (GetMap d ''tags'')))"

text \<open>Lines 162 to 211: the candidates left after paging and the optional tag filter.
  A paging error ends the operation before any tag is fetched.\<close>

definition listCandidates :: "('az, 'cfg) helpers \<Rightarrow> ('w, 'az, 'cfg) AWSClient \<Rightarrow> ResourceData
    \<Rightarrow> 'w \<Rightarrow> (read_error + 'az LoadBalancer list) \<times> 'w" where
  "listCandidates pkg meta d w =
    (let conn = elbv2conn meta;
         tagsToMatch = tagsToMatch_of pkg meta d;
         input = buildInput d in
     case DescribeLoadBalancersPages conn input pageFn [] w of
       (results, Some err, w1) \<Rightarrow> (Inl (ErrRetrievingLB err), w1)
     | (results, None, w1) \<Rightarrow>
         filterByTags conn tagsToMatch results w1)"

subsection \<open>Exactly one result (lines 213 to 217)\<close>

text \<open>The decimal digits that \<^verbatim>\<open>%d\<close> prints for a length.\<close>

function showNat :: "nat \<Rightarrow> string" where
  "showNat n =
    (if n < 10 then [char_of (48 + n)]
     else showNat (n div 10) @ [char_of (48 + n mod 10)])"
  by pat_completeness auto
termination
  by (relation "measure id") auto

text \<open>The message of the error \<open>ErrSearchResults n\<close>, the format string of line 214.\<close>

definition searchResultsMessage :: "nat \<Rightarrow> string" where
  "searchResultsMessage n =
    ''Search returned '' @ showNat n @ '' results, please revise so only one is returned''"

definition resolveLoadBalancer :: "('az, 'cfg) helpers \<Rightarrow> ('w, 'az, 'cfg) AWSClient
    \<Rightarrow> ResourceData \<Rightarrow> 'w \<Rightarrow> (read_error + 'az LoadBalancer) \<times> 'w" where
  "resolveLoadBalancer pkg meta d w =
    (case listCandidates pkg meta d w of
       (Inl e, w1) \<Rightarrow> (Inl e, w1)
     | (Inr results, w1) \<Rightarrow>
         if length results \<noteq> 1 then (Inl (ErrSearchResults (length results)), w1)
         else (Inr (results ! 0), w1))"

subsection \<open>Core fields, tags and the attribute request (lines 219 to 256)\<close>

text \<open>Lines 219 to 231: the assignments whose error is not looked at.\<close>

definition setCoreFields :: "('az, 'cfg) helpers \<Rightarrow> 'az LoadBalancer \<Rightarrow> ResourceData
    \<Rightarrow> ResourceData" where
  "setCoreFields pkg lb d0 =
    (let d = SetId d0 (StringValue (LoadBalancerArn lb));
         d = snd (Set d ''arn'' (PtrValue (LoadBalancerArn lb)));
         d = snd (Set d ''arn_suffix'' (VString (lbSuffixFromARN pkg (LoadBalancerArn lb))));
         d = snd (Set d ''name'' (PtrValue (LoadBalancerName lb)));
         d = snd (Set d ''internal''
               (VBool (Scheme lb \<noteq> None \<and> StringValue (Scheme lb) = ''internal'')));
         d = snd (Set d ''security_groups'' (flattenStringList pkg (SecurityGroups lb)));
         d = snd (Set d ''vpc_id'' (PtrValue (VpcId lb)));
         d = snd (Set d ''zone_id'' (PtrValue (CanonicalHostedZoneId lb)));
         d = snd (Set d ''dns_name'' (PtrValue (DNSName lb)));
         d = snd (Set d ''ip_address_type'' (PtrValue (IpAddressType lb)));
         d = snd (Set d ''load_balancer_type'' (PtrValue (Type lb)));
         d = snd (Set d ''customer_owned_ipv4_pool'' (PtrValue (CustomerOwnedIpv4Pool lb)))
     in d)"

text \<open>Lines 219 to 256. The result is either the error with the resource data as the failing
  step left it, or the resource data and the attributes that were fetched.\<close>

definition readCore :: "('az, 'cfg) helpers \<Rightarrow> ('w, 'az, 'cfg) AWSClient \<Rightarrow> 'az LoadBalancer
    \<Rightarrow> ResourceData \<Rightarrow> 'w
    \<Rightarrow> (read_error \<times> ResourceData \<times> 'w) + (ResourceData \<times> LoadBalancerAttribute list \<times> 'w)" where
  "readCore pkg meta lb d0 w =
    (let conn = elbv2conn meta;
         ignoreTagsConfig = IgnoreTagsConfig meta;
         d1 = setCoreFields pkg lb d0 in
     case Set d1 ''subnets'' (flattenSubnetsFromAvailabilityZones pkg (AvailabilityZones lb)) of
       (Some err, d2) \<Rightarrow> Inl (ErrSettingSubnets err, d2, w)
     | (None, d2) \<Rightarrow>
     (case Set d2 ''subnet_mapping''
             (flattenSubnetMappingsFromAvailabilityZones pkg (AvailabilityZones lb)) of
       (Some err, d3) \<Rightarrow> Inl (ErrSettingSubnetMapping err, d3, w)
     | (None, d3) \<Rightarrow>
     (case ListTags conn (ID d3) w of
       (Inl err, w1) \<Rightarrow> Inl (ErrListingTags (ID d3) err, d3, w1)
     | (Inr tags, w1) \<Rightarrow>
     (case Set d3 ''tags'' (TagsMap (IgnoreConfig pkg ignoreTagsConfig (IgnoreAws pkg tags))) of
       (Some err, d4) \<Rightarrow> Inl (ErrSettingTags err, d4, w1)
     | (None, d4) \<Rightarrow>
     (case DescribeLoadBalancerAttributes conn (ID d4) w1 of
       (Inl err, w2) \<Rightarrow> Inl (ErrRetrievingLBAttributes err, d4, w2)
     | (Inr attributes, w2) \<Rightarrow> Inr (d4, attributes, w2))))))"

subsection \<open>Attributes (lines 258 to 297)\<close>

text \<open>\<^verbatim>\<open>strconv.Atoi\<close> of the Go library, for a 64-bit \<^verbatim>\<open>int\<close>: an optional sign and then
  decimal digits, at least one. \<open>parseUint\<close> is the scan of \<^verbatim>\<open>ParseUint\<close> in base 10, from
  left to right: a character that is no digit is a syntax error, a number that leaves the
  range of \<^verbatim>\<open>uint64\<close> a range error, whichever comes first. The sign is then applied and
  the result checked against the range of \<^verbatim>\<open>int\<close>.\<close>

definition isDigit :: "char \<Rightarrow> bool" where
  "isDigit c = (48 \<le> (of_char c :: nat) \<and> (of_char c :: nat) \<le> 57)"

fun parseUint :: "string \<Rightarrow> int \<Rightarrow> atoi_cause + int" where
  "parseUint [] n = Inr n"
| "parseUint (c # cs) n =
    (if \<not> isDigit c then Inl ErrSyntax
     else if n \<ge> (2 ^ 64 - 1) div 10 + 1 then Inl ErrRange
     else
       let n1 = n * 10 + (of_char c - 48) in
       if n1 > 2 ^ 64 - 1 then Inl ErrRange
       else parseUint cs n1)"

definition Atoi :: "string \<Rightarrow> NumError + int" where
  "Atoi s =
    (let neg = (case s of c # r \<Rightarrow> c = CHR ''-'' | [] \<Rightarrow> False);
         ds = (case s of c # r \<Rightarrow> if c = CHR ''-'' \<or> c = CHR ''+'' then r else s | [] \<Rightarrow> s) in
     if ds = [] then Inl (NumError s ErrSyntax)
     else
       case parseUint ds 0 of
         Inl cause \<Rightarrow> Inl (NumError s cause)
       | Inr un \<Rightarrow>
           if \<not> neg \<and> un \<ge> 2 ^ 63 then Inl (NumError s ErrRange)
           else if neg \<and> un > 2 ^ 63 then Inl (NumError s ErrRange)
           else Inr (if neg then - un else un))"

definition accessLogMap_init :: "(string \<times> tfval) list" where
  "accessLogMap_init =
    [(''bucket'', VString ''''), (''enabled'', VBool False), (''prefix'', VString '''')]"

text \<open>The body of the loop over \<^verbatim>\<open>attributesResp.Attributes\<close>: the switch on the key of
  one attribute. It returns the error of line 275, or the access log map and the resource
  data after this attribute.\<close>

definition attrStep :: "LoadBalancerAttribute \<Rightarrow> (string \<times> tfval) list \<Rightarrow> ResourceData
    \<Rightarrow> (read_error \<times> ResourceData) + ((string \<times> tfval) list \<times> ResourceData)" where
  "attrStep attr accessLogMap d =
    (let key = StringValue (Key attr); v = StringValue (Value attr) in
     if key = ''access_logs.s3.enabled'' then
       Inr (AList.update ''enabled'' (VBool (v = ''true'')) accessLogMap, d)
     else if key = ''access_logs.s3.bucket'' then
       Inr (AList.update ''bucket'' (VString v) accessLogMap, d)
     else if key = ''access_logs.s3.prefix'' then
       Inr (AList.update ''prefix'' (VString v) accessLogMap, d)
     else if key = ''idle_timeout.timeout_seconds'' then
       (case Atoi v of
          Inl err \<Rightarrow> Inl (ErrParsingALBTimeout err, d)
        | Inr timeout \<Rightarrow> Inr (accessLogMap, snd (Set d ''idle_timeout'' (VInt timeout))))
     else if key = ''routing.http.drop_invalid_header_fields.enabled'' then
       Inr (accessLogMap, snd (Set d ''drop_invalid_header_fields'' (VBool (v = ''true''))))
     else if key = ''deletion_protection.enabled'' then
       Inr (accessLogMap, snd (Set d ''enable_deletion_protection'' (VBool (v = ''true''))))
     else if key = ''routing.http2.enabled'' then
       Inr (accessLogMap, snd (Set d ''enable_http2'' (VBool (v = ''true''))))
     else if key = ''load_balancing.cross_zone.enabled'' then
       Inr (accessLogMap, snd (Set d ''enable_cross_zone_load_balancing'' (VBool (v = ''true''))))
     else Inr (accessLogMap, d))"

text \<open>The loop itself: the attributes in order, stopping at the first error.\<close>

fun attrLoop :: "LoadBalancerAttribute list \<Rightarrow> (string \<times> tfval) list \<Rightarrow> ResourceData
    \<Rightarrow> (read_error \<times> ResourceData) + ((string \<times> tfval) list \<times> ResourceData)" where
  "attrLoop [] accessLogMap d = Inr (accessLogMap, d)"
| "attrLoop (attr # rest) accessLogMap d =
    (case attrStep attr accessLogMap d of
       Inl failure \<Rightarrow> Inl failure
     | Inr (accessLogMap', d') \<Rightarrow> attrLoop rest accessLogMap' d')"

definition readAttributes :: "LoadBalancerAttribute list \<Rightarrow> ResourceData
    \<Rightarrow> read_error option \<times> ResourceData" where
  "readAttributes attributes d =
    (case attrLoop attributes accessLogMap_init d of
       Inl (err, d1) \<Rightarrow> (Some err, d1)
     | Inr (accessLogMap, d1) \<Rightarrow>
         (case Set d1 ''access_logs'' (VList [VMap accessLogMap]) of
            (Some err, d2) \<Rightarrow> (Some (ErrSettingAccessLogs err), d2)
          | (None, d2) \<Rightarrow> (None, d2)))"

subsection \<open>The whole operation\<close>

text \<open>\<^verbatim>\<open>dataSourceAwsLbRead(d, meta)\<close>: the error returned (\<open>None\<close> is nil), the resource data
  as the call leaves it, and the world after the call.\<close>

definition dataSourceAwsLbRead :: "('az, 'cfg) helpers \<Rightarrow> ('w, 'az, 'cfg) AWSClient
    \<Rightarrow> ResourceData \<Rightarrow> 'w \<Rightarrow> read_error option \<times> ResourceData \<times> 'w" where
  "dataSourceAwsLbRead pkg meta d w =
    (case resolveLoadBalancer pkg meta d w of
       (Inl err, w1) \<Rightarrow> (Some err, d, w1)
     | (Inr lb, w1) \<Rightarrow>
         (case readCore pkg meta lb d w1 of
            Inl (err, d1, w2) \<Rightarrow> (Some err, d1, w2)
          | Inr (d1, attributes, w2) \<Rightarrow>
              (case readAttributes attributes d1 of (err, d2) \<Rightarrow> (err, d2, w2))))"

subsection \<open>A concrete service, for the examples\<close>

text \<open>The world is a counter of the tag requests made so far, so that an answer may depend
  on when it is asked; availability zones are given by their subnet identifiers and the
  ignore configuration by the keys to drop.\<close>

definition example_helpers :: "(string list, string list) helpers" where
  "example_helpers =
    \<lparr>New = map (\<lambda>(key, v). (key, case v of VString s \<Rightarrow> s | _ \<Rightarrow> '''')),
     IgnoreAws = filter (\<lambda>(key, v). take 4 key \<noteq> ''aws:''),
     IgnoreConfig = (\<lambda>cfg. filter (\<lambda>(key, v). key \<notin> set cfg)),
     lbSuffixFromARN = (\<lambda>arn. drop 1 (dropWhile (\<lambda>c. c \<noteq> CHR ''/'') (StringValue arn))),
     flattenStringList = (\<lambda>l. VList (map (\<lambda>p. VString (StringValue p)) l)),
     flattenSubnetsFromAvailabilityZones = (\<lambda>az. VList (map VString az)),
     flattenSubnetMappingsFromAvailabilityZones =
       (\<lambda>az. VList (map (\<lambda>s. VMap [(''subnet_id'', VString s)]) az))\<rparr>"

definition example_lb :: "string \<Rightarrow> string list LoadBalancer" where
  "example_lb name =
    \<lparr>LoadBalancerArn = Some (''arn:lb/'' @ name),
     LoadBalancerName = Some name,
     Scheme = Some ''internal'',
     SecurityGroups = [Some ''sg-1''],
     VpcId = Some ''vpc-1'',
     CanonicalHostedZoneId = None,
     DNSName = None,
     IpAddressType = None,
     Type = Some ''application'',
     CustomerOwnedIpv4Pool = None,
     AvailabilityZones = [''subnet-1'']\<rparr>"

definition example_conn ::
  "(string list DescribeLoadBalancersOutput option \<times> bool) list \<times> awserr option
    \<Rightarrow> (string \<Rightarrow> nat \<Rightarrow> awserr + KeyValueTags)
    \<Rightarrow> awserr + LoadBalancerAttribute list
    \<Rightarrow> (nat, string list) ELBV2" where
  "example_conn pages tagsOf attributes =
    \<lparr>ListPages = (\<lambda>input w. (pages, w)),
     ListTags = (\<lambda>arn w. (tagsOf arn w, Suc w)),
     DescribeLoadBalancerAttributes = (\<lambda>arn w. (attributes, w))\<rparr>"

definition example_meta :: "(nat, string list) ELBV2 \<Rightarrow> (nat, string list, string list) AWSClient" where
  "example_meta conn = \<lparr>elbv2conn = conn, IgnoreTagsConfig = []\<rparr>"

definition example_d :: "(string \<times> tfval) list \<Rightarrow> ResourceData" where
  "example_d tags = \<lparr>ID = '''', vals = [''tags'' \<mapsto> VMap tags]\<rparr>"

definition notFound :: awserr where
  "notFound = AwsError ''LoadBalancerNotFound'' ''gone''"

definition throttled :: awserr where
  "throttled = AwsError ''Throttling'' ''slow down''"

text \<open>Tags by identifier: \<open>a\<close> is a staging balancer, \<open>b\<close> a production one, \<open>c\<close> is gone
  and asking for \<open>d\<close> is throttled.\<close>

definition example_tagsOf :: "string \<Rightarrow> nat \<Rightarrow> awserr + KeyValueTags" where
  "example_tagsOf arn w =
    (if arn = ''arn:lb/a'' then Inr [(''env'', ''staging'')]
     else if arn = ''arn:lb/b'' then Inr [(''env'', ''prod''), (''team'', ''x'')]
     else if arn = ''arn:lb/c'' then Inl notFound
     else Inl throttled)"

text \<open>Tags of a balancer that is deleted after the first tag request.\<close>

definition example_tagsOnce :: "string \<Rightarrow> nat \<Rightarrow> awserr + KeyValueTags" where
  "example_tagsOnce arn w = (if w = 0 then Inr [(''env'', ''prod'')] else Inl notFound)"

definition example_page :: "string list \<Rightarrow> string list DescribeLoadBalancersOutput option" where
  "example_page names = Some \<lparr>LoadBalancers = map example_lb names\<rparr>"

definition example_attribute :: "string \<Rightarrow> string \<Rightarrow> LoadBalancerAttribute" where
  "example_attribute k v = \<lparr>Key = Some k, Value = Some v\<rparr>"

section \<open>Properties\<close>

subsection \<open>What an assignment does to the resource data\<close>

lemma Set_ID: "ID (snd (Set d key v)) = ID d"
  by (simp add: Set_def split: option.split)

lemma Set_vals_other: "key' \<noteq> key \<Longrightarrow> vals (snd (Set d key v)) key' = vals d key'"
  by (simp add: Set_def split: option.split)

lemma Set_idle_timeout:
  "Set d ''idle_timeout'' (VInt n) = (None, d\<lparr>vals := (vals d)(''idle_timeout'' \<mapsto> VInt n)\<rparr>)"
  by (simp add: Set_def dataSourceAwsLb_Schema_def)

lemma Set_access_logs:
  "Set d ''access_logs'' (VList vs) = (None, d\<lparr>vals := (vals d)(''access_logs'' \<mapsto> VList vs)\<rparr>)"
  by (simp add: Set_def dataSourceAwsLb_Schema_def)

lemma Set_cross_zone:
  "Set d ''enable_cross_zone_load_balancing'' v =
     (Some (InvalidAddress ''enable_cross_zone_load_balancing''), d)"
  by (simp add: Set_def dataSourceAwsLb_Schema_def)

lemma setCoreFields_ID: "ID (setCoreFields pkg lb d) = StringValue (LoadBalancerArn lb)"
  by (simp add: setCoreFields_def Let_def Set_ID SetId_def)

lemma readCore_ID:
  "readCore pkg meta lb d w = Inl (err, d', w') \<Longrightarrow> ID d' = StringValue (LoadBalancerArn lb)"
  "readCore pkg meta lb d w = Inr (d', attributes, w') \<Longrightarrow> ID d' = StringValue (LoadBalancerArn lb)"
  unfolding readCore_def Let_def
  by (auto split: prod.splits option.splits sum.splits
      dest!: arg_cong[where f="\<lambda>p. ID (snd p)"] simp: Set_ID setCoreFields_ID)

subsection \<open>The list request\<close>

text \<open>
  Claim C7. The list request names the identifier when \<^verbatim>\<open>arn\<close> is set to a non-empty
  string, whatever \<^verbatim>\<open>name\<close> holds; it names the name when \<^verbatim>\<open>arn\<close> is absent and
  \<^verbatim>\<open>name\<close> is set to a non-empty string; and it carries no filter when both are absent.
  \<open>buildInput\<close> returns a request in every case: it has no error result.
\<close>

theorem buildInput_policy:
  "(vals d ''arn'' = Some (VString a) \<and> a \<noteq> '''' \<longrightarrow>
      buildInput d = \<lparr>LoadBalancerArns = [a], Names = []\<rparr>) \<and>
   (\<not> snd (GetOk d ''arn'') \<and> vals d ''name'' = Some (VString n) \<and> n \<noteq> '''' \<longrightarrow>
      buildInput d = \<lparr>LoadBalancerArns = [], Names = [n]\<rparr>) \<and>
   (\<not> snd (GetOk d ''arn'') \<and> \<not> snd (GetOk d ''name'') \<longrightarrow>
      buildInput d = \<lparr>LoadBalancerArns = [], Names = []\<rparr>)"
  by (auto simp: buildInput_def GetOk_def split: option.splits tfval.splits prod.splits bool.splits)

theorem buildInput_policy_witness:
  "buildInput \<lparr>ID = '''', vals = [''arn'' \<mapsto> VString ''arn:lb/a'', ''name'' \<mapsto> VString ''b'']\<rparr>
     = \<lparr>LoadBalancerArns = [''arn:lb/a''], Names = []\<rparr> \<and>
   buildInput \<lparr>ID = '''', vals = [''arn'' \<mapsto> VString '''', ''name'' \<mapsto> VString ''b'']\<rparr>
     = \<lparr>LoadBalancerArns = [], Names = [''b'']\<rparr> \<and>
   buildInput \<lparr>ID = '''', vals = Map.empty\<rparr> = \<lparr>LoadBalancerArns = [], Names = []\<rparr>"
  using
    buildInput_policy [of "\<lparr>ID = '''', vals = [''arn'' \<mapsto> VString ''arn:lb/a'', ''name'' \<mapsto> VString ''b'']\<rparr>"
      "''arn:lb/a''" "''b''"]
    buildInput_policy [of "\<lparr>ID = '''', vals = [''arn'' \<mapsto> VString '''', ''name'' \<mapsto> VString ''b'']\<rparr>"
      "''''" "''b''"]
    buildInput_policy [of "\<lparr>ID = '''', vals = Map.empty\<rparr>" "''''" "''''"]
  by (simp add: GetOk_def)

subsection \<open>Evaluating the examples\<close>

lemmas example_defs =
  example_conn_def example_meta_def example_helpers_def example_lb_def example_d_def
  example_tagsOf_def example_tagsOnce_def example_page_def example_attribute_def
  notFound_def throttled_def ErrCodeLoadBalancerNotFoundException_def

subsection \<open>Which errors each part can return\<close>

lemma attrStep_error:
  "attrStep attr accessLogMap d = Inl (err, d') \<Longrightarrow> \<exists>e. err = ErrParsingALBTimeout e"
  by (auto simp: attrStep_def Let_def split: if_splits sum.splits)

lemma attrLoop_error:
  "attrLoop attributes accessLogMap d = Inl (err, d') \<Longrightarrow> \<exists>e. err = ErrParsingALBTimeout e"
  by (induction attributes arbitrary: accessLogMap d)
     (auto split: sum.splits dest: attrStep_error)

lemma readAttributes_error:
  "readAttributes attributes d = (Some err, d') \<Longrightarrow>
     (\<exists>e. err = ErrParsingALBTimeout e) \<or> (\<exists>e. err = ErrSettingAccessLogs e)"
  by (auto simp: readAttributes_def split: sum.splits prod.splits option.splits dest: attrLoop_error)

lemma readCore_error:
  "readCore pkg meta lb d w = Inl (err, d', w') \<Longrightarrow> err \<noteq> ErrSearchResults n"
  unfolding readCore_def Let_def
  by (auto split: prod.splits option.splits sum.splits)

lemma attrStep_ID:
  "attrStep attr accessLogMap d = Inl (err, d') \<Longrightarrow> ID d' = ID d"
  "attrStep attr accessLogMap d = Inr (accessLogMap', d') \<Longrightarrow> ID d' = ID d"
  by (auto simp: attrStep_def Let_def Set_ID split: if_splits sum.splits)

lemma attrLoop_ID:
  "attrLoop attributes accessLogMap d = Inl (err, d') \<Longrightarrow> ID d' = ID d"
  "attrLoop attributes accessLogMap d = Inr (accessLogMap', d') \<Longrightarrow> ID d' = ID d"
  by (induction attributes arbitrary: accessLogMap d)
     (auto split: sum.splits dest: attrStep_ID)

lemma readAttributes_ID: "readAttributes attributes d = (err, d') \<Longrightarrow> ID d' = ID d"
  using Set_ID [of _ "''access_logs''"]
  by (auto simp: readAttributes_def split: sum.splits prod.splits option.splits
      dest: attrLoop_ID dest!: arg_cong [where f="\<lambda>p. ID (snd p)"])

subsection \<open>The two loops, piecewise\<close>

lemma eachPage_pageFn:
  "eachPage pageFn pages results =
     (results @ concat (map (\<lambda>(page, lastPage). case page of None \<Rightarrow> [] | Some p \<Rightarrow> LoadBalancers p)
        (takeWhile (\<lambda>(page, lastPage). \<not> lastPage) pages
          @ take 1 (dropWhile (\<lambda>(page, lastPage). \<not> lastPage) pages))),
      list_all (\<lambda>(page, lastPage). \<not> lastPage) pages)"
  by (induction pages arbitrary: results)
     (auto simp: pageFn_def split: option.splits prod.splits bool.splits)

lemma filterLoop_append:
  "filterLoop conn tm (xs @ ys) acc w =
     (case filterLoop conn tm xs acc w of
        (Inl e, w') \<Rightarrow> (Inl e, w')
      | (Inr acc', w') \<Rightarrow> filterLoop conn tm ys acc' w')"
  by (induction xs arbitrary: acc w) (auto simp: Let_def split: prod.splits sum.splits)

lemma filterLoop_acc:
  "filterLoop conn tm xs acc w =
     (case filterLoop conn tm xs [] w of
        (Inl e, w') \<Rightarrow> (Inl e, w')
      | (Inr out, w') \<Rightarrow> (Inr (acc @ out), w'))"
proof (induction xs arbitrary: acc w)
  case Nil
  show ?case by simp
next
  case (Cons x xs)
  show ?case
    by (simp add: Let_def Cons.IH [of "acc @ [x]"] Cons.IH [of "[x]"] Cons.IH [of acc]
          split: prod.splits sum.splits)
qed

lemma filterLoop_split:
  assumes "filterLoop conn tm before [] w = (Inr kept, w1)"
  shows "filterLoop conn tm (before @ lb # after) [] w = filterLoop conn tm (lb # after) kept w1"
  using assms by (simp add: filterLoop_append)

subsection \<open>Exactly one result\<close>

text \<open>The message of the error determines the count it prints.\<close>

lemma showNat_nonempty: "showNat n \<noteq> []"
  by (subst showNat.simps) simp

lemma digit_char_inj:
  assumes "char_of (48 + a) = char_of (48 + b)" and "a < 10" and "b < 10"
  shows "a = (b::nat)"
proof -
  have "of_char (char_of (48 + a)) = (of_char (char_of (48 + b)) :: nat)"
    using assms(1) by simp
  then have "(48 + a) mod 256 = (48 + b) mod 256"
    by (simp add: of_char_of)
  then show ?thesis
    using assms(2,3) by simp
qed

lemma showNat_inj: "showNat m = showNat n \<Longrightarrow> m = n"
proof (induction m arbitrary: n rule: showNat.induct)
  case (1 m)
  show ?case
  proof (cases "m < 10")
    case True
    then have m: "showNat m = [char_of (48 + m)]"
      by (subst showNat.simps) simp
    have "n < 10"
    proof (rule ccontr)
      assume "\<not> n < 10"
      then have "showNat n = showNat (n div 10) @ [char_of (48 + n mod 10)]"
        by (subst showNat.simps) simp
      then show False
        using m "1.prems" showNat_nonempty [of "n div 10"] by simp
    qed
    then have "showNat n = [char_of (48 + n)]"
      by (subst showNat.simps) simp
    then show ?thesis
      using m "1.prems" True \<open>n < 10\<close> digit_char_inj by simp
  next
    case False
    then have m: "showNat m = showNat (m div 10) @ [char_of (48 + m mod 10)]"
      by (subst showNat.simps) simp
    have "\<not> n < 10"
    proof
      assume "n < 10"
      then have "showNat n = [char_of (48 + n)]"
        by (subst showNat.simps) simp
      then show False
        using m "1.prems" showNat_nonempty [of "m div 10"] by simp
    qed
    then have n: "showNat n = showNat (n div 10) @ [char_of (48 + n mod 10)]"
      by (subst showNat.simps) simp
    have eq: "showNat (m div 10) = showNat (n div 10)"
        "char_of (48 + m mod 10) = char_of (48 + n mod 10)"
      using m n "1.prems" by simp_all
    have "m div 10 = n div 10"
      using "1.IH" [OF False eq(1)] .
    moreover have "m mod 10 = n mod 10"
      using digit_char_inj [OF eq(2)] by simp
    ultimately show ?thesis
      by (metis div_mult_mod_eq)
  qed
qed

lemma searchResultsMessage_inj: "searchResultsMessage m = searchResultsMessage n \<Longrightarrow> m = n"
  by (simp add: searchResultsMessage_def showNat_inj)

text \<open>
  Claim C1. Let paging and the optional tag filter leave the list \<open>results\<close>. If its length
  is not one (zero, or more than one) the read operation fails with the error
  \<open>ErrSearchResults (length results)\<close> and the resource data is as before. If the length
  is one the check is passed with the only element, and whatever the operation returns
  afterwards is never this error. The message of the error, \<open>searchResultsMessage\<close>, prints
  the length in decimal, and no other count has the same message.
\<close>

theorem cardinality_check:
  assumes "listCandidates pkg meta d w = (Inr results, w1)"
  shows "(length results \<noteq> 1 \<longrightarrow>
            dataSourceAwsLbRead pkg meta d w = (Some (ErrSearchResults (length results)), d, w1)) \<and>
         (length results = 1 \<longrightarrow>
            resolveLoadBalancer pkg meta d w = (Inr (results ! 0), w1) \<and>
            (\<forall>n. fst (dataSourceAwsLbRead pkg meta d w) \<noteq> Some (ErrSearchResults n))) \<and>
         (\<forall>n. searchResultsMessage n = searchResultsMessage (length results) \<longrightarrow>
            n = length results)"
proof (intro conjI impI allI)
  assume "length results \<noteq> 1"
  then show "dataSourceAwsLbRead pkg meta d w = (Some (ErrSearchResults (length results)), d, w1)"
    using assms by (simp add: dataSourceAwsLbRead_def resolveLoadBalancer_def)
next
  assume one: "length results = 1"
  then show r: "resolveLoadBalancer pkg meta d w = (Inr (results ! 0), w1)"
    using assms by (simp add: resolveLoadBalancer_def)
  fix n
  show "fst (dataSourceAwsLbRead pkg meta d w) \<noteq> Some (ErrSearchResults n)"
    using r readCore_error [of pkg meta "results ! 0" d w1]
      readAttributes_error
    by (fastforce simp: dataSourceAwsLbRead_def split: sum.splits prod.splits)
next
  fix n
  assume "searchResultsMessage n = searchResultsMessage (length results)"
  then show "n = length results"
    by (rule searchResultsMessage_inj)
qed

theorem cardinality_check_witness:
  "dataSourceAwsLbRead example_helpers
     (example_meta (example_conn ([(example_page [''a'', ''b''], True)], None) example_tagsOf (Inr [])))
     (example_d []) 0
     = (Some (ErrSearchResults 2), example_d [], 0) \<and>
   searchResultsMessage 2 = ''Search returned 2 results, please revise so only one is returned'' \<and>
   dataSourceAwsLbRead example_helpers
     (example_meta (example_conn ([(None, True)], None) example_tagsOf (Inr [])))
     (example_d []) 0
     = (Some (ErrSearchResults 0), example_d [], 0) \<and>
   resolveLoadBalancer example_helpers
     (example_meta (example_conn ([(example_page [''a'', ''b''], True)], None) example_tagsOf (Inr [])))
     (example_d [(''env'', VString ''prod'')]) 0
     = (Inr (example_lb ''b''), 2)"
proof -
  have msg: "searchResultsMessage 2
      = ''Search returned 2 results, please revise so only one is returned''"
    by code_simp
  show ?thesis
    using msg
      cardinality_check [of example_helpers
        "example_meta (example_conn ([(example_page [''a'', ''b''], True)], None) example_tagsOf (Inr []))"
        "example_d []" 0 "[example_lb ''a'', example_lb ''b'']" 0]
      cardinality_check [of example_helpers
        "example_meta (example_conn ([(None, True)], None) example_tagsOf (Inr []))"
        "example_d []" 0 "[]" 0]
      cardinality_check [of example_helpers
        "example_meta (example_conn ([(example_page [''a'', ''b''], True)], None) example_tagsOf (Inr []))"
        "example_d [(''env'', VString ''prod'')]" 0 "[example_lb ''b'']" 2]
    by (simp add: listCandidates_def DescribeLoadBalancersPages_def pageFn_def filterByTags_def
          tagsToMatch_of_def GetMap_def GetOk_def buildInput_def StringValue_def ContainsAll_def
          Let_def example_defs)
qed

subsection \<open>Filtering by tags\<close>

text \<open>
  Claim C2. With a non-empty tag predicate, take a candidate \<open>lb\<close> at any position of the
  list: the loop has gone through the candidates before it, its tag request answers with the
  tags \<open>tags\<close>, and the loop completes on the candidates after it. Then the candidate is in
  the resulting list, at its place, exactly when \<open>ContainsAll tags tagsToMatch\<close>, which holds
  exactly when every key of the predicate is among the tags with an equal value. The
  predicate \<open>{env: prod}\<close> leaves out tags \<open>{env: staging}\<close> and lets \<open>{env: prod, team: x}\<close> in.
\<close>

theorem tag_filter_conjunctive:
  assumes "length tagsToMatch > 0"
    and "filterLoop conn tagsToMatch before [] w = (Inr kept, w1)"
    and "ListTags conn (StringValue (LoadBalancerArn lb)) w1 = (Inr tags, w2)"
    and "filterLoop conn tagsToMatch after [] w2 = (Inr kept', w3)"
  shows "filterByTags conn tagsToMatch (before @ lb # after) w =
           (Inr (kept @ (if ContainsAll tags tagsToMatch then [lb] else []) @ kept'), w3) \<and>
         (ContainsAll tags tagsToMatch \<longleftrightarrow>
            (\<forall>key v. (key, v) \<in> set tagsToMatch \<longrightarrow> map_of tags key = Some v)) \<and>
         \<not> ContainsAll [(''env'', ''staging'')] [(''env'', ''prod'')] \<and>
         ContainsAll [(''env'', ''prod''), (''team'', ''x'')] [(''env'', ''prod'')]"
proof (intro conjI)
  have "filterByTags conn tagsToMatch (before @ lb # after) w =
          filterLoop conn tagsToMatch (lb # after) kept w1"
    using assms(1) filterLoop_split [OF assms(2)] by (simp add: filterByTags_def)
  also have "\<dots> = filterLoop conn tagsToMatch after
                     (kept @ (if ContainsAll tags tagsToMatch then [lb] else [])) w2"
    using assms(3) by (simp add: Let_def)
  also have "\<dots> = (Inr ((kept @ (if ContainsAll tags tagsToMatch then [lb] else [])) @ kept'), w3)"
    using assms(4)
      filterLoop_acc [of conn tagsToMatch after
        "kept @ (if ContainsAll tags tagsToMatch then [lb] else [])" w2]
    by simp
  finally show "filterByTags conn tagsToMatch (before @ lb # after) w =
      (Inr (kept @ (if ContainsAll tags tagsToMatch then [lb] else []) @ kept'), w3)"
    by simp
  show "ContainsAll tags tagsToMatch \<longleftrightarrow>
          (\<forall>key v. (key, v) \<in> set tagsToMatch \<longrightarrow> map_of tags key = Some v)"
    by (auto simp: ContainsAll_def list_all_iff)
  show "\<not> ContainsAll [(''env'', ''staging'')] [(''env'', ''prod'')]"
    by (simp add: ContainsAll_def)
  show "ContainsAll [(''env'', ''prod''), (''team'', ''x'')] [(''env'', ''prod'')]"
    by (simp add: ContainsAll_def)
qed

theorem tag_filter_conjunctive_witness:
  "filterByTags (example_conn ([], None) example_tagsOf (Inr [])) [(''env'', ''prod'')]
     [example_lb ''a'', example_lb ''b''] 0 = (Inr [example_lb ''b''], 2)"
  using
    tag_filter_conjunctive [of "[(''env'', ''prod'')]" "example_conn ([], None) example_tagsOf (Inr [])"
      "[example_lb ''a'']" 0 "[]" 1 "example_lb ''b''" "[(''env'', ''prod''), (''team'', ''x'')]" 2
      "[]" "[]" 2]
    tag_filter_conjunctive [of "[(''env'', ''prod'')]" "example_conn ([], None) example_tagsOf (Inr [])"
      "[]" 0 "[]" 0 "example_lb ''a''" "[(''env'', ''staging'')]" 1
      "[example_lb ''b'']" "[example_lb ''b'']" 2]
  by (simp add: example_conn_def example_tagsOf_def example_lb_def StringValue_def ContainsAll_def)

text \<open>
  Claim C3. In the filtering phase, let the tag request of a candidate \<open>lb\<close> fail with the
  error \<open>err\<close>, after the loop has gone through the candidates before it. If \<open>err\<close> has the
  code of a load balancer that was not found, the candidate is left out and the loop goes on
  with the candidates after it. With any other error the read operation returns the error
  \<open>ErrListingTags\<close> that carries the identifier of the candidate and wraps \<open>err\<close>.
\<close>

theorem tag_fetch_errors:
  assumes "length (tagsToMatch_of pkg meta d) > 0"
    and "DescribeLoadBalancersPages (elbv2conn meta) (buildInput d) pageFn [] w0
           = (before @ lb # after, None, w)"
    and "filterLoop (elbv2conn meta) (tagsToMatch_of pkg meta d) before [] w = (Inr kept, w1)"
    and "ListTags (elbv2conn meta) (StringValue (LoadBalancerArn lb)) w1 = (Inl err, w2)"
  shows "(ErrCodeEquals err ErrCodeLoadBalancerNotFoundException \<longrightarrow>
            listCandidates pkg meta d w0 =
              (case filterLoop (elbv2conn meta) (tagsToMatch_of pkg meta d) after [] w2 of
                 (Inl e, w') \<Rightarrow> (Inl e, w')
               | (Inr kept', w') \<Rightarrow> (Inr (kept @ kept'), w'))) \<and>
         (\<not> ErrCodeEquals err ErrCodeLoadBalancerNotFoundException \<longrightarrow>
            dataSourceAwsLbRead pkg meta d w0 =
              (Some (ErrListingTags (StringValue (LoadBalancerArn lb)) err), d, w2))"
proof -
  let ?conn = "elbv2conn meta" and ?tm = "tagsToMatch_of pkg meta d"
  have cand: "listCandidates pkg meta d w0 = filterLoop ?conn ?tm (lb # after) kept w1"
    using assms(1,2) filterLoop_split [OF assms(3)]
    by (simp add: listCandidates_def Let_def filterByTags_def)
  show ?thesis
  proof (intro conjI impI)
    assume "ErrCodeEquals err ErrCodeLoadBalancerNotFoundException"
    then have "listCandidates pkg meta d w0 = filterLoop ?conn ?tm after kept w2"
      using cand assms(4) by (simp add: Let_def)
    then show "listCandidates pkg meta d w0 =
        (case filterLoop ?conn ?tm after [] w2 of
           (Inl e, w') \<Rightarrow> (Inl e, w')
         | (Inr kept', w') \<Rightarrow> (Inr (kept @ kept'), w'))"
      using filterLoop_acc [of ?conn ?tm after kept w2] by simp
  next
    assume "\<not> ErrCodeEquals err ErrCodeLoadBalancerNotFoundException"
    then have "listCandidates pkg meta d w0 =
        (Inl (ErrListingTags (StringValue (LoadBalancerArn lb)) err), w2)"
      using cand assms(4) by (simp add: Let_def)
    then show "dataSourceAwsLbRead pkg meta d w0 =
        (Some (ErrListingTags (StringValue (LoadBalancerArn lb)) err), d, w2)"
      by (simp add: dataSourceAwsLbRead_def resolveLoadBalancer_def)
  qed
qed

theorem tag_fetch_errors_witness:
  "listCandidates example_helpers
     (example_meta (example_conn ([(example_page [''a'', ''c'', ''b''], True)], None) example_tagsOf (Inr [])))
     (example_d [(''env'', VString ''prod'')]) 0
     = (Inr [example_lb ''b''], 3) \<and>
   dataSourceAwsLbRead example_helpers
     (example_meta (example_conn ([(example_page [''b'', ''d'', ''a''], True)], None) example_tagsOf (Inr [])))
     (example_d [(''env'', VString ''prod'')]) 0
     = (Some (ErrListingTags ''arn:lb/d'' throttled), example_d [(''env'', VString ''prod'')], 2)"
  using
    tag_fetch_errors [of example_helpers
      "example_meta (example_conn ([(example_page [''a'', ''c'', ''b''], True)], None) example_tagsOf (Inr []))"
      "example_d [(''env'', VString ''prod'')]" 0 "[example_lb ''a'']" "example_lb ''c''"
      "[example_lb ''b'']" 0 "[]" 1 notFound 2]
    tag_fetch_errors [of example_helpers
      "example_meta (example_conn ([(example_page [''b'', ''d'', ''a''], True)], None) example_tagsOf (Inr []))"
      "example_d [(''env'', VString ''prod'')]" 0 "[example_lb ''b'']" "example_lb ''d''"
      "[example_lb ''a'']" 0 "[example_lb ''b'']" 1 throttled 2]
  by (simp add: DescribeLoadBalancersPages_def pageFn_def
        tagsToMatch_of_def GetMap_def GetOk_def buildInput_def StringValue_def ContainsAll_def
        Let_def example_defs)

subsection \<open>The second tag request\<close>

text \<open>
  Claim C10. Once one load balancer is resolved and its core fields are assigned, an error
  of the tag request made on its identifier ends the read operation with the error
  \<open>ErrListingTags\<close> that wraps it, whatever the error is: the code of a load balancer that was
  not found is not treated apart here, as it is in the filtering phase.
\<close>

theorem final_tag_fetch_error:
  assumes "resolveLoadBalancer pkg meta d w = (Inr lb, w1)"
    and "Set (setCoreFields pkg lb d) ''subnets''
           (flattenSubnetsFromAvailabilityZones pkg (AvailabilityZones lb)) = (None, d2)"
    and "Set d2 ''subnet_mapping''
           (flattenSubnetMappingsFromAvailabilityZones pkg (AvailabilityZones lb)) = (None, d3)"
    and "ListTags (elbv2conn meta) (StringValue (LoadBalancerArn lb)) w1 = (Inl err, w2)"
  shows "dataSourceAwsLbRead pkg meta d w =
           (Some (ErrListingTags (StringValue (LoadBalancerArn lb)) err), d3, w2)"
proof -
  have "ID d2 = StringValue (LoadBalancerArn lb)"
    using Set_ID [of "setCoreFields pkg lb d" "''subnets''"
        "flattenSubnetsFromAvailabilityZones pkg (AvailabilityZones lb)"] assms(2)
    by (simp add: setCoreFields_ID)
  then have id3: "ID d3 = StringValue (LoadBalancerArn lb)"
    using Set_ID [of d2 "''subnet_mapping''"
        "flattenSubnetMappingsFromAvailabilityZones pkg (AvailabilityZones lb)"] assms(3)
    by simp
  have "readCore pkg meta lb d w1 =
          Inl (ErrListingTags (StringValue (LoadBalancerArn lb)) err, d3, w2)"
    using assms(2,3,4) id3 by (simp add: readCore_def Let_def)
  then show ?thesis
    using assms(1) by (simp add: dataSourceAwsLbRead_def)
qed

theorem final_tag_fetch_error_witness:
  "\<exists>d'. dataSourceAwsLbRead example_helpers
     (example_meta (example_conn ([(example_page [''b''], True)], None) example_tagsOnce (Inr [])))
     (example_d [(''env'', VString ''prod'')]) 0
     = (Some (ErrListingTags ''arn:lb/b'' notFound), d', 2)"
  using
    final_tag_fetch_error [of example_helpers
      "example_meta (example_conn ([(example_page [''b''], True)], None) example_tagsOnce (Inr []))"
      "example_d [(''env'', VString ''prod'')]" 0 "example_lb ''b''" 1
      "snd (Set (setCoreFields example_helpers (example_lb ''b'') (example_d [(''env'', VString ''prod'')]))
          ''subnets'' (VList [VString ''subnet-1'']))"
      "snd (Set (snd (Set (setCoreFields example_helpers (example_lb ''b'') (example_d [(''env'', VString ''prod'')]))
          ''subnets'' (VList [VString ''subnet-1''])))
          ''subnet_mapping'' (VList [VMap [(''subnet_id'', VString ''subnet-1'')]]))"
      notFound 2]
  by (simp add: resolveLoadBalancer_def listCandidates_def DescribeLoadBalancersPages_def pageFn_def
        filterByTags_def tagsToMatch_of_def GetMap_def GetOk_def buildInput_def StringValue_def
        ContainsAll_def Let_def example_defs Set_def dataSourceAwsLb_Schema_def)

subsection \<open>The resource data after a failure\<close>

text \<open>
  Claim C4, as stated, does not hold: when the second tag request fails, the operation
  returns an error and the resource data already holds the identifier of the load balancer.
\<close>

theorem failed_read_keeps_identifier:
  "fst (dataSourceAwsLbRead example_helpers
     (example_meta (example_conn ([(example_page [''b''], True)], None) example_tagsOnce (Inr [])))
     (example_d [(''env'', VString ''prod'')]) 0) = Some (ErrListingTags ''arn:lb/b'' notFound) \<and>
   ID (fst (snd (dataSourceAwsLbRead example_helpers
     (example_meta (example_conn ([(example_page [''b''], True)], None) example_tagsOnce (Inr [])))
     (example_d [(''env'', VString ''prod'')]) 0))) = ''arn:lb/b'' \<and>
   ID (example_d [(''env'', VString ''prod'')]) = '''' \<and>
   fst (snd (dataSourceAwsLbRead example_helpers
     (example_meta (example_conn ([(example_page [''b''], True)], None) example_tagsOnce (Inr [])))
     (example_d [(''env'', VString ''prod'')]) 0)) \<noteq> example_d [(''env'', VString ''prod'')]"
  by (simp add: dataSourceAwsLbRead_def readCore_def setCoreFields_def SetId_def PtrValue_def
        resolveLoadBalancer_def listCandidates_def DescribeLoadBalancersPages_def pageFn_def
        filterByTags_def tagsToMatch_of_def GetMap_def GetOk_def buildInput_def StringValue_def
        ContainsAll_def Let_def example_defs Set_def dataSourceAwsLb_Schema_def)

text \<open>
  Claim C4, amended. When the read operation fails before one load balancer is resolved (the
  list request fails, a tag request of the filtering phase fails, or the number of results
  is not one) the resource data is unchanged. When it fails later, the resource data it
  leaves is not the one it was given: its identifier is that of the resolved load balancer.
\<close>

theorem failed_read_output:
  assumes "dataSourceAwsLbRead pkg meta d w = (Some err, d', w')"
  shows "case resolveLoadBalancer pkg meta d w of
           (Inl e, w1) \<Rightarrow> d' = d \<and> err = e \<and> w' = w1
         | (Inr lb, w1) \<Rightarrow> ID d' = StringValue (LoadBalancerArn lb)"
proof (cases "resolveLoadBalancer pkg meta d w")
  case (Pair r w1)
  show ?thesis
  proof (cases r)
    case (Inl e)
    then show ?thesis
      using assms Pair by (simp add: dataSourceAwsLbRead_def)
  next
    case (Inr lb)
    show ?thesis
    proof (cases "readCore pkg meta lb d w1")
      case (Inl failure)
      then show ?thesis
        using assms Pair Inr readCore_ID(1) [of pkg meta lb d w1]
        by (auto simp: dataSourceAwsLbRead_def split: prod.splits)
    next
      case core: (Inr fetched)
      then show ?thesis
        using assms Pair Inr readCore_ID(2) [of pkg meta lb d w1] readAttributes_ID
        by (auto simp: dataSourceAwsLbRead_def split: prod.splits)
    qed
  qed
qed

theorem failed_read_output_witness:
  "ID (fst (snd (dataSourceAwsLbRead example_helpers
     (example_meta (example_conn ([(example_page [''b''], True)], None) example_tagsOnce (Inr [])))
     (example_d [(''env'', VString ''prod'')]) 0))) = ''arn:lb/b'' \<and>
   fst (snd (dataSourceAwsLbRead example_helpers
     (example_meta (example_conn ([(example_page [''a'', ''b''], True)], None) example_tagsOf (Inr [])))
     (example_d []) 0)) = example_d []"
proof -
  let ?m1 = "example_meta (example_conn ([(example_page [''b''], True)], None) example_tagsOnce (Inr []))"
  let ?d1 = "example_d [(''env'', VString ''prod'')]"
  let ?r1 = "dataSourceAwsLbRead example_helpers ?m1 ?d1 0"
  let ?m2 = "example_meta (example_conn ([(example_page [''a'', ''b''], True)], None) example_tagsOf (Inr []))"
  let ?r2 = "dataSourceAwsLbRead example_helpers ?m2 (example_d []) 0"
  have res1: "resolveLoadBalancer example_helpers ?m1 ?d1 0 = (Inr (example_lb ''b''), 1)"
    by (simp add: resolveLoadBalancer_def listCandidates_def DescribeLoadBalancersPages_def
          pageFn_def filterByTags_def tagsToMatch_of_def GetMap_def GetOk_def buildInput_def
          StringValue_def ContainsAll_def Let_def example_defs)
  have res2: "resolveLoadBalancer example_helpers ?m2 (example_d []) 0 = (Inl (ErrSearchResults 2), 0)"
    by (simp add: resolveLoadBalancer_def listCandidates_def DescribeLoadBalancersPages_def
          pageFn_def filterByTags_def tagsToMatch_of_def GetMap_def GetOk_def buildInput_def
          StringValue_def ContainsAll_def Let_def example_defs)
  have "fst ?r1 = Some (ErrListingTags ''arn:lb/b'' notFound)"
    using res1
    by (simp add: dataSourceAwsLbRead_def readCore_def setCoreFields_def SetId_def PtrValue_def
          StringValue_def Let_def example_defs Set_def dataSourceAwsLb_Schema_def)
  then have e1: "?r1 = (Some (ErrListingTags ''arn:lb/b'' notFound), fst (snd ?r1), snd (snd ?r1))"
    by (metis prod.collapse)
  have "fst ?r2 = Some (ErrSearchResults 2)"
    using res2 by (simp add: dataSourceAwsLbRead_def)
  then have e2: "?r2 = (Some (ErrSearchResults 2), fst (snd ?r2), snd (snd ?r2))"
    by (metis prod.collapse)
  show ?thesis
    using failed_read_output [OF e1] failed_read_output [OF e2] res1 res2
    by (simp add: example_lb_def StringValue_def)
qed

subsection \<open>Paging\<close>

text \<open>
  Claim C6, as stated, does not hold: on a nil page the callback returns \<^verbatim>\<open>!lastPage\<close>, so
  after a nil page that is not the last one the pager goes on and the next page is added.
\<close>

theorem null_page_does_not_stop_paging:
  "pageFn [] None False = ([], True) \<and>
   eachPage pageFn [(None, False), (example_page [''a''], True)] [] = ([example_lb ''a''], False) \<and>
   [example_lb ''a''] \<noteq> []"
  by (simp add: pageFn_def example_page_def)

text \<open>
  Claim C6, amended. The load balancers of the pages are accumulated in the order of
  arrival, up to and including the first page that is flagged as the last one. A nil page
  adds nothing and is no error; paging goes on after it unless it is flagged as the last
  page. The request error is returned only when no delivered page was flagged as the last.
\<close>

theorem paging_accumulates:
  assumes "ListPages conn input w = ((pages, err), w1)"
  shows "DescribeLoadBalancersPages conn input pageFn [] w =
           (concat (map (\<lambda>(page, lastPage). case page of None \<Rightarrow> [] | Some p \<Rightarrow> LoadBalancers p)
              (takeWhile (\<lambda>(page, lastPage). \<not> lastPage) pages
                @ take 1 (dropWhile (\<lambda>(page, lastPage). \<not> lastPage) pages))),
            if list_all (\<lambda>(page, lastPage). \<not> lastPage) pages then err else None,
            w1)"
  using assms by (simp add: DescribeLoadBalancersPages_def eachPage_pageFn)

theorem paging_accumulates_witness:
  "DescribeLoadBalancersPages
     (example_conn ([(example_page [''a''], False), (None, False), (example_page [''b''], True),
                     (example_page [''c''], False)], Some throttled) example_tagsOf (Inr []))
     \<lparr>LoadBalancerArns = [], Names = []\<rparr> pageFn [] 0
     = ([example_lb ''a'', example_lb ''b''], None, 0)"
  using paging_accumulates [of
      "example_conn ([(example_page [''a''], False), (None, False), (example_page [''b''], True),
                     (example_page [''c''], False)], Some throttled) example_tagsOf (Inr [])"
      "\<lparr>LoadBalancerArns = [], Names = []\<rparr>" 0
      "[(example_page [''a''], False), (None, False), (example_page [''b''], True),
                     (example_page [''c''], False)]" "Some throttled" 0]
  by (simp add: example_conn_def example_page_def)

subsection \<open>The attribute loop, piecewise\<close>

lemmas core_defs =
  readCore_def setCoreFields_def SetId_def PtrValue_def TagsMap_def Set_def
  dataSourceAwsLb_Schema_def tagsSchema_def

lemmas resolve_defs =
  resolveLoadBalancer_def listCandidates_def DescribeLoadBalancersPages_def
  pageFn_def filterByTags_def tagsToMatch_of_def GetMap_def GetOk_def buildInput_def
  StringValue_def ContainsAll_def Let_def

lemma attrLoop_append:
  "attrLoop (xs @ ys) accessLogMap d =
     (case attrLoop xs accessLogMap d of
        Inl failure \<Rightarrow> Inl failure
      | Inr (accessLogMap', d') \<Rightarrow> attrLoop ys accessLogMap' d')"
  by (induction xs arbitrary: accessLogMap d) (auto split: sum.splits)

lemma attrStep_timeout:
  assumes "StringValue (Key attr) = ''idle_timeout.timeout_seconds''"
  shows "attrStep attr accessLogMap d =
     (case Atoi (StringValue (Value attr)) of
        Inl err \<Rightarrow> Inl (ErrParsingALBTimeout err, d)
      | Inr n \<Rightarrow> Inr (accessLogMap, d\<lparr>vals := (vals d)(''idle_timeout'' \<mapsto> VInt n)\<rparr>))"
  using assms by (simp add: attrStep_def Let_def Set_idle_timeout split: sum.splits)

lemma attrStep_other:
  assumes "StringValue (Key attr) \<noteq> ''idle_timeout.timeout_seconds''"
  shows "\<exists>accessLogMap' d'. attrStep attr accessLogMap d = Inr (accessLogMap', d') \<and>
           vals d' ''idle_timeout'' = vals d ''idle_timeout''"
  using assms by (simp add: attrStep_def Let_def Set_vals_other)

lemma attrStep_accessLogMap:
  assumes "StringValue (Key attr) \<noteq> ''access_logs.s3.enabled''"
    and "StringValue (Key attr) \<noteq> ''access_logs.s3.bucket''"
    and "StringValue (Key attr) \<noteq> ''access_logs.s3.prefix''"
    and "attrStep attr accessLogMap d = Inr (accessLogMap', d')"
  shows "accessLogMap' = accessLogMap"
  using assms by (auto simp: attrStep_def Let_def split: if_splits sum.splits)

lemma attrLoop_total:
  assumes "\<forall>a \<in> set xs. StringValue (Key a) = ''idle_timeout.timeout_seconds'' \<longrightarrow>
             (\<exists>n. Atoi (StringValue (Value a)) = Inr n)"
  shows "\<exists>accessLogMap' d'. attrLoop xs accessLogMap d = Inr (accessLogMap', d')"
  using assms
proof (induction xs arbitrary: accessLogMap d)
  case Nil
  show ?case by simp
next
  case (Cons a xs)
  show ?case
  proof (cases "StringValue (Key a) = ''idle_timeout.timeout_seconds''")
    case True
    then obtain n where "Atoi (StringValue (Value a)) = Inr n"
      using Cons.prems by auto
    then show ?thesis
      using True Cons.IH Cons.prems by (simp add: attrStep_timeout)
  next
    case False
    then obtain m e where "attrStep a accessLogMap d = Inr (m, e)"
      using attrStep_other by blast
    then show ?thesis
      using Cons.IH Cons.prems by simp
  qed
qed

lemma attrLoop_keeps_timeout:
  assumes "\<forall>a \<in> set xs. StringValue (Key a) \<noteq> ''idle_timeout.timeout_seconds''"
  shows "\<exists>accessLogMap' d'. attrLoop xs accessLogMap d = Inr (accessLogMap', d') \<and>
           vals d' ''idle_timeout'' = vals d ''idle_timeout''"
  using assms
proof (induction xs arbitrary: accessLogMap d)
  case Nil
  show ?case by simp
next
  case (Cons a xs)
  then obtain m e where step: "attrStep a accessLogMap d = Inr (m, e)"
      "vals e ''idle_timeout'' = vals d ''idle_timeout''"
    using attrStep_other [of a accessLogMap d] by auto
  obtain m' e' where "attrLoop xs m e = Inr (m', e')" "vals e' ''idle_timeout'' = vals e ''idle_timeout''"
    using Cons.IH [of m e] Cons.prems by auto
  then show ?case
    using step by simp
qed

lemma attrLoop_keeps_accessLogMap:
  assumes "\<forall>a \<in> set xs. StringValue (Key a) \<noteq> ''access_logs.s3.enabled'' \<and>
             StringValue (Key a) \<noteq> ''access_logs.s3.bucket'' \<and>
             StringValue (Key a) \<noteq> ''access_logs.s3.prefix''"
    and "attrLoop xs accessLogMap d = Inr (accessLogMap', d')"
  shows "accessLogMap' = accessLogMap"
  using assms
proof (induction xs arbitrary: accessLogMap d)
  case Nil
  then show ?case by simp
next
  case (Cons a xs)
  from Cons.prems(2) obtain m e where step: "attrStep a accessLogMap d = Inr (m, e)"
    and rest: "attrLoop xs m e = Inr (accessLogMap', d')"
    by (auto split: sum.splits)
  have "m = accessLogMap"
    using attrStep_accessLogMap [OF _ _ _ step] Cons.prems(1) by simp
  moreover have "accessLogMap' = m"
    using Cons.IH [OF _ rest] Cons.prems(1) by simp
  ultimately show ?case by simp
qed

lemma Atoi_examples:
  "Atoi ''60'' = Inr 60" "Atoi ''abc'' = Inl (NumError ''abc'' ErrSyntax)"
  by (simp_all add: Atoi_def isDigit_def)

lemma read_after_core:
  assumes "resolveLoadBalancer pkg meta d w = (Inr lb, w1)"
    and "readCore pkg meta lb d w1 = Inr (d0, attributes, w2)"
  shows "dataSourceAwsLbRead pkg meta d w =
           (fst (readAttributes attributes d0), snd (readAttributes attributes d0), w2)"
  using assms by (simp add: dataSourceAwsLbRead_def split: prod.splits)

subsection \<open>The idle timeout\<close>

text \<open>
  Claim C8. Let the attributes that were fetched hold an entry \<open>attr\<close> with the key
  \<^verbatim>\<open>idle_timeout.timeout_seconds\<close>, every timeout entry before it being a number. If the
  value of \<open>attr\<close> parses as the integer \<open>n\<close>, and no later entry has the same key, the read
  operation succeeds and the field \<^verbatim>\<open>idle_timeout\<close> of the resource data is \<open>n\<close>. If it
  does not parse, the read operation returns the error \<open>ErrParsingALBTimeout\<close> that wraps the
  parse error. The string \<^verbatim>\<open>60\<close> parses as 60 and \<^verbatim>\<open>abc\<close> does not parse.
\<close>

theorem idle_timeout_parsed:
  assumes "resolveLoadBalancer pkg meta d w = (Inr lb, w1)"
    and "readCore pkg meta lb d w1 = Inr (d0, before @ attr # after, w2)"
    and "StringValue (Key attr) = ''idle_timeout.timeout_seconds''"
    and "\<forall>a \<in> set before. StringValue (Key a) = ''idle_timeout.timeout_seconds'' \<longrightarrow>
           (\<exists>n. Atoi (StringValue (Value a)) = Inr n)"
  shows "(\<forall>n. Atoi (StringValue (Value attr)) = Inr n \<and>
              (\<forall>a \<in> set after. StringValue (Key a) \<noteq> ''idle_timeout.timeout_seconds'') \<longrightarrow>
            (\<exists>d'. dataSourceAwsLbRead pkg meta d w = (None, d', w2) \<and>
                  vals d' ''idle_timeout'' = Some (VInt n))) \<and>
         (\<forall>err. Atoi (StringValue (Value attr)) = Inl err \<longrightarrow>
            (\<exists>d'. dataSourceAwsLbRead pkg meta d w = (Some (ErrParsingALBTimeout err), d', w2))) \<and>
         Atoi ''60'' = Inr 60 \<and>
         Atoi ''abc'' = Inl (NumError ''abc'' ErrSyntax)"
proof -
  obtain m e where pre: "attrLoop before accessLogMap_init d0 = Inr (m, e)"
    using attrLoop_total [OF assms(4)] by blast
  have loop: "attrLoop (before @ attr # after) accessLogMap_init d0 =
      (case attrStep attr m e of
         Inl failure \<Rightarrow> Inl failure
       | Inr (m', e') \<Rightarrow> attrLoop after m' e')"
    using pre by (simp add: attrLoop_append)
  have ok: "\<exists>d'. dataSourceAwsLbRead pkg meta d w = (None, d', w2) \<and>
                  vals d' ''idle_timeout'' = Some (VInt n)"
    if parse: "Atoi (StringValue (Value attr)) = Inr n"
      and rest: "\<forall>a \<in> set after. StringValue (Key a) \<noteq> ''idle_timeout.timeout_seconds''"
    for n
  proof -
    let ?e1 = "e\<lparr>vals := (vals e)(''idle_timeout'' \<mapsto> VInt n)\<rparr>"
    have "attrStep attr m e = Inr (m, ?e1)"
      using parse by (simp add: attrStep_timeout [OF assms(3)])
    moreover obtain m' e' where "attrLoop after m ?e1 = Inr (m', e')"
        and "vals e' ''idle_timeout'' = vals ?e1 ''idle_timeout''"
      using attrLoop_keeps_timeout [OF rest, of m ?e1] by blast
    ultimately have "attrLoop (before @ attr # after) accessLogMap_init d0 = Inr (m', e')"
        and "vals e' ''idle_timeout'' = Some (VInt n)"
      using loop by simp_all
    then have "readAttributes (before @ attr # after) d0 =
          (None, e'\<lparr>vals := (vals e')(''access_logs'' \<mapsto> VList [VMap m'])\<rparr>)"
        and "vals (e'\<lparr>vals := (vals e')(''access_logs'' \<mapsto> VList [VMap m'])\<rparr>) ''idle_timeout''
          = Some (VInt n)"
      by (simp_all add: readAttributes_def Set_access_logs)
    then show ?thesis
      using read_after_core [OF assms(1,2)] by simp
  qed
  have bad: "\<exists>d'. dataSourceAwsLbRead pkg meta d w = (Some (ErrParsingALBTimeout err), d', w2)"
    if parse: "Atoi (StringValue (Value attr)) = Inl err" for err
  proof -
    have "attrStep attr m e = Inl (ErrParsingALBTimeout err, e)"
      using parse by (simp add: attrStep_timeout [OF assms(3)])
    then have "readAttributes (before @ attr # after) d0 = (Some (ErrParsingALBTimeout err), e)"
      using loop by (simp add: readAttributes_def)
    then show ?thesis
      using read_after_core [OF assms(1,2)] by simp
  qed
  show ?thesis
    using ok bad Atoi_examples by blast
qed

theorem idle_timeout_parsed_witness:
  "fst (dataSourceAwsLbRead example_helpers
     (example_meta (example_conn ([(example_page [''b''], True)], None) example_tagsOf
        (Inr [example_attribute ''routing.http2.enabled'' ''true'',
              example_attribute ''idle_timeout.timeout_seconds'' ''60'',
              example_attribute ''deletion_protection.enabled'' ''false''])))
     (example_d []) 0) = None \<and>
   vals (fst (snd (dataSourceAwsLbRead example_helpers
     (example_meta (example_conn ([(example_page [''b''], True)], None) example_tagsOf
        (Inr [example_attribute ''routing.http2.enabled'' ''true'',
              example_attribute ''idle_timeout.timeout_seconds'' ''60'',
              example_attribute ''deletion_protection.enabled'' ''false''])))
     (example_d []) 0))) ''idle_timeout'' = Some (VInt 60) \<and>
   fst (dataSourceAwsLbRead example_helpers
     (example_meta (example_conn ([(example_page [''b''], True)], None) example_tagsOf
        (Inr [example_attribute ''routing.http2.enabled'' ''true'',
              example_attribute ''idle_timeout.timeout_seconds'' ''abc'',
              example_attribute ''deletion_protection.enabled'' ''false''])))
     (example_d []) 0) = Some (ErrParsingALBTimeout (NumError ''abc'' ErrSyntax))"
proof -
  let ?attrs = "\<lambda>v. [example_attribute ''routing.http2.enabled'' ''true'',
              example_attribute ''idle_timeout.timeout_seconds'' v,
              example_attribute ''deletion_protection.enabled'' ''false'']"
  let ?meta = "\<lambda>v. example_meta (example_conn ([(example_page [''b''], True)], None) example_tagsOf
        (Inr (?attrs v)))"
  have res: "resolveLoadBalancer example_helpers (?meta v) (example_d []) 0
      = (Inr (example_lb ''b''), 0)" for v
    by (simp add: resolve_defs example_defs)
  have "\<exists>d0. readCore example_helpers (?meta v) (example_lb ''b'') (example_d []) 0
      = Inr (d0, [example_attribute ''routing.http2.enabled'' ''true'']
                 @ example_attribute ''idle_timeout.timeout_seconds'' v
                 # [example_attribute ''deletion_protection.enabled'' ''false''], 1)" for v
    by (simp add: core_defs example_defs StringValue_def Let_def)
  then obtain d60 dabc where
    core60: "readCore example_helpers (?meta ''60'') (example_lb ''b'') (example_d []) 0
      = Inr (d60, [example_attribute ''routing.http2.enabled'' ''true'']
                 @ example_attribute ''idle_timeout.timeout_seconds'' ''60''
                 # [example_attribute ''deletion_protection.enabled'' ''false''], 1)"
    and coreabc: "readCore example_helpers (?meta ''abc'') (example_lb ''b'') (example_d []) 0
      = Inr (dabc, [example_attribute ''routing.http2.enabled'' ''true'']
                 @ example_attribute ''idle_timeout.timeout_seconds'' ''abc''
                 # [example_attribute ''deletion_protection.enabled'' ''false''], 1)"
    by blast
  have key: "StringValue (Key (example_attribute ''idle_timeout.timeout_seconds'' v))
      = ''idle_timeout.timeout_seconds''" for v
    by (simp add: example_attribute_def StringValue_def)
  have before: "\<forall>a \<in> set [example_attribute ''routing.http2.enabled'' ''true''].
      StringValue (Key a) = ''idle_timeout.timeout_seconds'' \<longrightarrow>
        (\<exists>n. Atoi (StringValue (Value a)) = Inr n)"
    by (simp add: example_attribute_def StringValue_def)
  show ?thesis
    using idle_timeout_parsed [OF res core60 key before]
      idle_timeout_parsed [OF res coreabc key before]
    by (auto simp: example_attribute_def StringValue_def)
qed

subsection \<open>The access log record\<close>

text \<open>
  Claim C9. Let the attributes that were fetched hold none of the keys
  \<^verbatim>\<open>access_logs.s3.enabled\<close>, \<^verbatim>\<open>access_logs.s3.bucket\<close> and \<^verbatim>\<open>access_logs.s3.prefix\<close>.
  Whenever the read operation succeeds, the field \<^verbatim>\<open>access_logs\<close> of the resource data is
  a list of one element, the record with \<^verbatim>\<open>bucket\<close> empty, \<^verbatim>\<open>enabled\<close> false and
  \<^verbatim>\<open>prefix\<close> empty; and the operation does succeed when every timeout entry among the
  attributes is a number, the only way the loop can end early being a timeout that does
  not parse.
\<close>

theorem default_access_logs:
  assumes "resolveLoadBalancer pkg meta d w = (Inr lb, w1)"
    and "readCore pkg meta lb d w1 = Inr (d0, attributes, w2)"
    and "\<forall>a \<in> set attributes. StringValue (Key a) \<noteq> ''access_logs.s3.enabled'' \<and>
           StringValue (Key a) \<noteq> ''access_logs.s3.bucket'' \<and>
           StringValue (Key a) \<noteq> ''access_logs.s3.prefix''"
  shows "(fst (dataSourceAwsLbRead pkg meta d w) = None \<longrightarrow>
            vals (fst (snd (dataSourceAwsLbRead pkg meta d w))) ''access_logs'' =
              Some (VList [VMap [(''bucket'', VString ''''), (''enabled'', VBool False),
                                 (''prefix'', VString '''')]])) \<and>
         ((\<forall>a \<in> set attributes. StringValue (Key a) = ''idle_timeout.timeout_seconds'' \<longrightarrow>
              (\<exists>n. Atoi (StringValue (Value a)) = Inr n)) \<longrightarrow>
            fst (dataSourceAwsLbRead pkg meta d w) = None)"
proof (intro conjI impI)
  assume ok: "fst (dataSourceAwsLbRead pkg meta d w) = None"
  show "vals (fst (snd (dataSourceAwsLbRead pkg meta d w))) ''access_logs'' =
      Some (VList [VMap [(''bucket'', VString ''''), (''enabled'', VBool False),
                         (''prefix'', VString '''')]])"
  proof (cases "attrLoop attributes accessLogMap_init d0")
    case (Inl failure)
    then have "fst (readAttributes attributes d0) \<noteq> None"
      by (simp add: readAttributes_def split: prod.splits)
    then show ?thesis
      using ok read_after_core [OF assms(1,2)] by simp
  next
    case (Inr finished)
    then obtain m e where loop: "attrLoop attributes accessLogMap_init d0 = Inr (m, e)"
      by (cases finished) simp
    have "m = accessLogMap_init"
      using attrLoop_keeps_accessLogMap [OF assms(3) loop] .
    then have "readAttributes attributes d0 =
        (None, e\<lparr>vals := (vals e)(''access_logs'' \<mapsto> VList [VMap accessLogMap_init])\<rparr>)"
      using loop by (simp add: readAttributes_def Set_access_logs)
    then show ?thesis
      using read_after_core [OF assms(1,2)] by (simp add: accessLogMap_init_def)
  qed
next
  assume "\<forall>a \<in> set attributes. StringValue (Key a) = ''idle_timeout.timeout_seconds'' \<longrightarrow>
      (\<exists>n. Atoi (StringValue (Value a)) = Inr n)"
  then obtain m e where "attrLoop attributes accessLogMap_init d0 = Inr (m, e)"
    using attrLoop_total by blast
  then have "fst (readAttributes attributes d0) = None"
    by (simp add: readAttributes_def Set_access_logs)
  then show "fst (dataSourceAwsLbRead pkg meta d w) = None"
    using read_after_core [OF assms(1,2)] by simp
qed

theorem default_access_logs_witness:
  "fst (dataSourceAwsLbRead example_helpers
     (example_meta (example_conn ([(example_page [''b''], True)], None) example_tagsOf
        (Inr [example_attribute ''routing.http2.enabled'' ''true'',
              example_attribute ''idle_timeout.timeout_seconds'' ''60''])))
     (example_d []) 0) = None \<and>
   vals (fst (snd (dataSourceAwsLbRead example_helpers
     (example_meta (example_conn ([(example_page [''b''], True)], None) example_tagsOf
        (Inr [example_attribute ''routing.http2.enabled'' ''true'',
              example_attribute ''idle_timeout.timeout_seconds'' ''60''])))
     (example_d []) 0))) ''access_logs''
     = Some (VList [VMap [(''bucket'', VString ''''), (''enabled'', VBool False),
                          (''prefix'', VString '''')]])"
proof -
  let ?attrs = "[example_attribute ''routing.http2.enabled'' ''true'',
              example_attribute ''idle_timeout.timeout_seconds'' ''60'']"
  let ?meta = "example_meta (example_conn ([(example_page [''b''], True)], None) example_tagsOf
        (Inr ?attrs))"
  have res: "resolveLoadBalancer example_helpers ?meta (example_d []) 0
      = (Inr (example_lb ''b''), 0)"
    by (simp add: resolve_defs example_defs)
  have "\<exists>d0. readCore example_helpers ?meta (example_lb ''b'') (example_d []) 0
      = Inr (d0, ?attrs, 1)"
    by (simp add: core_defs example_defs StringValue_def Let_def)
  then obtain d0 where
    core: "readCore example_helpers ?meta (example_lb ''b'') (example_d []) 0 = Inr (d0, ?attrs, 1)"
    by blast
  have keys: "\<forall>a \<in> set ?attrs. StringValue (Key a) \<noteq> ''access_logs.s3.enabled'' \<and>
           StringValue (Key a) \<noteq> ''access_logs.s3.bucket'' \<and>
           StringValue (Key a) \<noteq> ''access_logs.s3.prefix''"
    by (simp add: example_attribute_def StringValue_def)
  have parse: "\<forall>a \<in> set ?attrs. StringValue (Key a) = ''idle_timeout.timeout_seconds'' \<longrightarrow>
           (\<exists>n. Atoi (StringValue (Value a)) = Inr n)"
    by (simp add: example_attribute_def StringValue_def Atoi_examples)
  note claim = default_access_logs [OF res core keys]
  have ok: "fst (dataSourceAwsLbRead example_helpers ?meta (example_d []) 0) = None"
    using claim [THEN conjunct2] parse by (rule mp)
  show ?thesis
    using ok claim [THEN conjunct1] by simp
qed

subsection \<open>The boolean flags\<close>

text \<open>A field that the schema does not declare is never written, by any step.\<close>

lemma Set_undeclared:
  assumes "map_of dataSourceAwsLb_Schema k = None"
  shows "vals (snd (Set d key v)) k = vals d k"
proof (cases "key = k")
  case True
  then show ?thesis using assms by (simp add: Set_def)
next
  case False
  then show ?thesis by (simp add: Set_vals_other)
qed

lemma cross_zone_undeclared:
  "map_of dataSourceAwsLb_Schema ''enable_cross_zone_load_balancing'' = None"
  by (simp add: dataSourceAwsLb_Schema_def)

lemma setCoreFields_undeclared:
  assumes "map_of dataSourceAwsLb_Schema k = None"
  shows "vals (setCoreFields pkg lb d) k = vals d k"
  by (simp add: setCoreFields_def Let_def Set_undeclared [OF assms] SetId_def)

lemma readCore_undeclared:
  assumes "map_of dataSourceAwsLb_Schema k = None"
  shows "readCore pkg meta lb d w = Inl (err, d', w') \<Longrightarrow> vals d' k = vals d k"
    and "readCore pkg meta lb d w = Inr (d', attributes, w') \<Longrightarrow> vals d' k = vals d k"
  unfolding readCore_def Let_def
  by (auto split: prod.splits option.splits sum.splits
      dest!: arg_cong [where f="\<lambda>p. vals (snd p) k"]
      simp: Set_undeclared [OF assms] setCoreFields_undeclared [OF assms])

lemma attrStep_undeclared:
  assumes "map_of dataSourceAwsLb_Schema k = None"
  shows "attrStep attr accessLogMap d = Inl (err, d') \<Longrightarrow> vals d' k = vals d k"
    and "attrStep attr accessLogMap d = Inr (accessLogMap', d') \<Longrightarrow> vals d' k = vals d k"
  by (auto simp: attrStep_def Let_def Set_undeclared [OF assms] split: if_splits sum.splits)

lemma attrLoop_undeclared:
  assumes "map_of dataSourceAwsLb_Schema k = None"
  shows "attrLoop attributes accessLogMap d = Inl (err, d') \<Longrightarrow> vals d' k = vals d k"
    and "attrLoop attributes accessLogMap d = Inr (accessLogMap', d') \<Longrightarrow> vals d' k = vals d k"
  by (induction attributes arbitrary: accessLogMap d)
     (auto split: sum.splits dest: attrStep_undeclared [OF assms])

lemma readAttributes_undeclared:
  assumes "map_of dataSourceAwsLb_Schema k = None"
    and "readAttributes attributes d = (err, d')"
  shows "vals d' k = vals d k"
  using assms(2) Set_undeclared [OF assms(1), of _ "''access_logs''"]
  by (auto simp: readAttributes_def split: sum.splits prod.splits option.splits
      dest: attrLoop_undeclared [OF assms(1)] dest!: arg_cong [where f="\<lambda>p. vals (snd p) k"])

lemma read_undeclared:
  assumes "map_of dataSourceAwsLb_Schema k = None"
    and "dataSourceAwsLbRead pkg meta d w = (err, d', w')"
  shows "vals d' k = vals d k"
  using assms(2) readCore_undeclared [OF assms(1)] readAttributes_undeclared [OF assms(1)]
  by (fastforce simp: dataSourceAwsLbRead_def split: prod.splits sum.splits)

lemma cross_zone_never_assigned:
  assumes "dataSourceAwsLbRead pkg meta d w = (err, d', w')"
  shows "vals d' ''enable_cross_zone_load_balancing'' = vals d ''enable_cross_zone_load_balancing''"
  using read_undeclared [OF cross_zone_undeclared assms] .

text \<open>
  Claim C5 says that an attribute list with the key \<^verbatim>\<open>load_balancing.cross_zone.enabled\<close>
  gets the cross-zone flag assigned. The code does call \<^verbatim>\<open>d.Set\<close> for it (line 289), but the
  schema of the data source declares no field \<^verbatim>\<open>enable_cross_zone_load_balancing\<close>: the
  assignment returns an error, which line 289 does not look at, and the resource data has
  no such field after a successful read. The deletion protection flag of the same list is
  assigned.
\<close>

theorem cross_zone_flag_not_written:
  "fst (dataSourceAwsLbRead example_helpers
     (example_meta (example_conn ([(example_page [''b''], True)], None) example_tagsOf
        (Inr [example_attribute ''load_balancing.cross_zone.enabled'' ''true'',
              example_attribute ''deletion_protection.enabled'' ''true''])))
     (example_d []) 0) = None \<and>
   vals (fst (snd (dataSourceAwsLbRead example_helpers
     (example_meta (example_conn ([(example_page [''b''], True)], None) example_tagsOf
        (Inr [example_attribute ''load_balancing.cross_zone.enabled'' ''true'',
              example_attribute ''deletion_protection.enabled'' ''true''])))
     (example_d []) 0))) ''enable_cross_zone_load_balancing'' = None \<and>
   vals (fst (snd (dataSourceAwsLbRead example_helpers
     (example_meta (example_conn ([(example_page [''b''], True)], None) example_tagsOf
        (Inr [example_attribute ''load_balancing.cross_zone.enabled'' ''true'',
              example_attribute ''deletion_protection.enabled'' ''true''])))
     (example_d []) 0))) ''enable_deletion_protection'' = Some (VBool True) \<and>
   fst (Set (example_d []) ''enable_cross_zone_load_balancing'' (VBool True))
     = Some (InvalidAddress ''enable_cross_zone_load_balancing'')"
  by (simp add: dataSourceAwsLbRead_def readAttributes_def attrStep_def accessLogMap_init_def
        resolve_defs core_defs example_defs)

text \<open>The three flags that the schema declares are assigned as the claim says: the field
  is true exactly when the value of the last entry with the key is the string \<^verbatim>\<open>true\<close>.\<close>

lemma attrStep_flag:
  assumes "(k, f) \<in> {(''routing.http.drop_invalid_header_fields.enabled'', ''drop_invalid_header_fields''),
                     (''deletion_protection.enabled'', ''enable_deletion_protection''),
                     (''routing.http2.enabled'', ''enable_http2'')}"
    and "StringValue (Key attr) = k"
  shows "attrStep attr accessLogMap d =
           Inr (accessLogMap, d\<lparr>vals := (vals d)(f \<mapsto> VBool (StringValue (Value attr) = ''true''))\<rparr>)"
  using assms by (auto simp: attrStep_def Let_def Set_def dataSourceAwsLb_Schema_def)

lemma attrStep_writes:
  assumes "attrStep attr accessLogMap d = Inr (accessLogMap', d')"
  shows "d' = d \<or>
         (StringValue (Key attr) = ''idle_timeout.timeout_seconds'' \<and>
            (\<exists>v. d' = snd (Set d ''idle_timeout'' v))) \<or>
         (StringValue (Key attr) = ''routing.http.drop_invalid_header_fields.enabled'' \<and>
            (\<exists>v. d' = snd (Set d ''drop_invalid_header_fields'' v))) \<or>
         (StringValue (Key attr) = ''deletion_protection.enabled'' \<and>
            (\<exists>v. d' = snd (Set d ''enable_deletion_protection'' v))) \<or>
         (StringValue (Key attr) = ''routing.http2.enabled'' \<and>
            (\<exists>v. d' = snd (Set d ''enable_http2'' v))) \<or>
         (StringValue (Key attr) = ''load_balancing.cross_zone.enabled'' \<and>
            (\<exists>v. d' = snd (Set d ''enable_cross_zone_load_balancing'' v)))"
proof (cases "Atoi (StringValue (Value attr))")
  case (Inl e)
  with assms show ?thesis
    unfolding attrStep_def Let_def by (simp split: if_splits) blast+
next
  case (Inr n)
  with assms show ?thesis
    unfolding attrStep_def Let_def by (simp split: if_splits) blast+
qed

lemma attrStep_keeps_flag:
  assumes "(k, f) \<in> {(''routing.http.drop_invalid_header_fields.enabled'', ''drop_invalid_header_fields''),
                     (''deletion_protection.enabled'', ''enable_deletion_protection''),
                     (''routing.http2.enabled'', ''enable_http2'')}"
    and "StringValue (Key attr) \<noteq> k"
    and "attrStep attr accessLogMap d = Inr (accessLogMap', d')"
  shows "vals d' f = vals d f"
  using attrStep_writes [OF assms(3)] assms(1,2)
  by (elim disjE conjE exE insertE emptyE) (simp_all add: Set_vals_other)

lemma attrLoop_keeps_flag:
  assumes "(k, f) \<in> {(''routing.http.drop_invalid_header_fields.enabled'', ''drop_invalid_header_fields''),
                     (''deletion_protection.enabled'', ''enable_deletion_protection''),
                     (''routing.http2.enabled'', ''enable_http2'')}"
    and "\<forall>a \<in> set xs. StringValue (Key a) \<noteq> k"
    and "attrLoop xs accessLogMap d = Inr (accessLogMap', d')"
  shows "vals d' f = vals d f"
  using assms(2,3)
proof (induction xs arbitrary: accessLogMap d)
  case Nil
  then show ?case by simp
next
  case (Cons a xs)
  from Cons.prems(2) obtain m e where step: "attrStep a accessLogMap d = Inr (m, e)"
    and rest: "attrLoop xs m e = Inr (accessLogMap', d')"
    by (auto split: sum.splits)
  have "vals e f = vals d f"
    using attrStep_keeps_flag [OF assms(1) _ step] Cons.prems(1) by simp
  moreover have "vals d' f = vals e f"
    using Cons.IH [OF _ rest] Cons.prems(1) by simp
  ultimately show ?case by simp
qed

lemma sibling_flags_assigned:
  assumes "resolveLoadBalancer pkg meta d w = (Inr lb, w1)"
    and "readCore pkg meta lb d w1 = Inr (d0, before @ attr # after, w2)"
    and "(k, f) \<in> {(''routing.http.drop_invalid_header_fields.enabled'', ''drop_invalid_header_fields''),
                     (''deletion_protection.enabled'', ''enable_deletion_protection''),
                     (''routing.http2.enabled'', ''enable_http2'')}"
    and "StringValue (Key attr) = k"
    and "\<forall>a \<in> set after. StringValue (Key a) \<noteq> k"
    and "\<forall>a \<in> set (before @ after). StringValue (Key a) = ''idle_timeout.timeout_seconds'' \<longrightarrow>
           (\<exists>n. Atoi (StringValue (Value a)) = Inr n)"
  shows "\<exists>d'. dataSourceAwsLbRead pkg meta d w = (None, d', w2) \<and>
           vals d' f = Some (VBool (StringValue (Value attr) = ''true''))"
proof -
  have notf: "f \<noteq> ''access_logs''"
    using assms(3) by auto
  have parse: "\<forall>a \<in> set before. StringValue (Key a) = ''idle_timeout.timeout_seconds'' \<longrightarrow>
           (\<exists>n. Atoi (StringValue (Value a)) = Inr n)"
      "\<forall>a \<in> set after. StringValue (Key a) = ''idle_timeout.timeout_seconds'' \<longrightarrow>
           (\<exists>n. Atoi (StringValue (Value a)) = Inr n)"
    using assms(6) by simp_all
  obtain m e where pre: "attrLoop before accessLogMap_init d0 = Inr (m, e)"
    using attrLoop_total [OF parse(1)] by blast
  let ?e1 = "e\<lparr>vals := (vals e)(f \<mapsto> VBool (StringValue (Value attr) = ''true''))\<rparr>"
  have step: "attrStep attr m e = Inr (m, ?e1)"
    using attrStep_flag [OF assms(3,4)] .
  obtain m' e' where post: "attrLoop after m ?e1 = Inr (m', e')"
    using attrLoop_total [OF parse(2)] by blast
  have "vals e' f = vals ?e1 f"
    using attrLoop_keeps_flag [OF assms(3) assms(5) post] .
  then have val: "vals e' f = Some (VBool (StringValue (Value attr) = ''true''))"
    by simp
  have "attrLoop (before @ attr # after) accessLogMap_init d0 = Inr (m', e')"
    using pre step post by (simp add: attrLoop_append)
  then have "readAttributes (before @ attr # after) d0 =
      (None, e'\<lparr>vals := (vals e')(''access_logs'' \<mapsto> VList [VMap m'])\<rparr>)"
    by (simp add: readAttributes_def Set_access_logs)
  then show ?thesis
    using read_after_core [OF assms(1,2)] val notf by simp
qed

end
